theory Spec2Isabelle
  imports Main "HOL-Library.Word"
begin

section \<open>Derived account balances: the data model\<close>

text \<open>
  The derivation \<^verbatim>\<open>balances.all\<close> turns raw chain storage (balance components,
  lock entries, a vesting schedule) into one computed view. Every on-chain number
  (\<^verbatim>\<open>Balance\<close>, \<^verbatim>\<open>BlockNumber\<close>) is an object extending the big-number class
  \<^verbatim>\<open>BN\<close>: arbitrary precision, signed arithmetic, no wrap-around. A \<^verbatim>\<open>BN\<close> is
  modelled by its value.
\<close>

type_synonym BN = int

text \<open>
  What the code can throw while it computes a result: reading a property of
  \<^verbatim>\<open>undefined\<close>, and the big-number division by zero.
\<close>

datatype error = TypeError | DivisionByZero

text \<open>
  Modelled from the spec: \<^verbatim>\<open>api.registry.createType\<close> belongs to the type registry,
  which is not among the sources. The spec calls a balance an unsigned big integer and
  says of the lock resolver and of the shared-view composer that they raise no error, so
  building a \<^verbatim>\<open>Balance\<close> or a \<^verbatim>\<open>BlockNumber\<close> from a number keeps the number;
  with no value given it is zero.
\<close>

definition createType_Balance :: "BN \<Rightarrow> BN" where
  "createType_Balance v = v"

definition createType_BlockNumber :: "BN \<Rightarrow> BN" where
  "createType_BlockNumber v = v"

text \<open>
  Modelled from the spec: \<^verbatim>\<open>isMax\<close> is a method of the integer codec, not among the
  sources. The spec's sentinel is the maximum representable value of a lock amount; a
  \<^verbatim>\<open>Balance\<close> has 128 bits.
\<close>

definition MAX_BALANCE :: BN where
  "MAX_BALANCE = 2 ^ 128 - 1"

definition isMax :: "BN \<Rightarrow> bool" where
  "isMax a = (a = MAX_BALANCE)"

text \<open>
  Modelled from the spec: \<^verbatim>\<open>bnMax\<close> comes from the utility package, not among the
  sources; it takes one or more numbers and returns the largest. Both calls of the code
  pass at least one number: the first argument and the list of the others.
\<close>

definition bnMax :: "BN \<Rightarrow> BN list \<Rightarrow> BN" where
  "bnMax x xs = fold max xs x"

text \<open>
  Modelled from the spec: the division of \<^verbatim>\<open>BN\<close> is a library method, not among the
  sources. It is integer division, rounding towards zero; the spec leaves division by a
  zero \<^verbatim>\<open>perBlock\<close> undefined and lists it as a failure that ends the feed.
\<close>

definition bn_div :: "BN \<Rightarrow> BN \<Rightarrow> error + BN" where
  "bn_div a b = (if b = 0 then Inl DivisionByZero else Inr (sgn a * sgn b * (\<bar>a\<bar> div \<bar>b\<bar>)))"

text \<open>
  A lock entry. The two wire shapes are \<^verbatim>\<open>BalanceLockTo212\<close>, which carries
  \<^verbatim>\<open>until\<close>, and \<^verbatim>\<open>BalanceLock\<close>, which has no such field: there the property read
  gives \<^verbatim>\<open>undefined\<close>, here \<open>None\<close>. The identifier is eight bytes.
\<close>

record BalanceLock =
  id' :: "8 word list"
  amount :: BN
  until :: "BN option"

record AllLocked =
  allLocked :: bool
  lockedBalance :: BN
  lockedBreakdown :: "BalanceLock list"
  vestingLocked :: BN

text \<open>
  The vesting schedule in its two shapes: the legacy \<^verbatim>\<open>VestingSchedule\<close>, keyed by
  \<^verbatim>\<open>offset\<close>, and the normalized \<^verbatim>\<open>VestingInfo\<close>.
\<close>

record VestingSchedule =
  offset :: BN
  perBlock :: BN
  startingBlock :: BN

record VestingInfo =
  locked :: BN
  perBlock :: BN
  startingBlock :: BN

record DeriveBalancesAccountData =
  freeBalance :: BN
  reservedBalance :: BN

record DeriveBalancesAccount = DeriveBalancesAccountData +
  accountId :: "8 word list"
  accountNonce :: BN
  additional :: "DeriveBalancesAccountData list"

text \<open>
  The derived view of one balance-module instance: the spread \<^verbatim>\<open>...data\<close> copies the
  raw components (none when \<^verbatim>\<open>data\<close> is \<^verbatim>\<open>undefined\<close>), then the four computed
  fields follow.
\<close>

record DeriveBalancesAllAccountData =
  data :: "DeriveBalancesAccountData option"
  availableBalance :: BN
  lockedBalance :: BN
  lockedBreakdown :: "BalanceLock list"
  vestingLocked :: BN

record DeriveBalancesAll = DeriveBalancesAllAccountData +
  accountId :: "8 word list"
  accountNonce :: BN
  additional :: "DeriveBalancesAllAccountData list"
  isVesting :: bool
  vestedBalance :: BN
  vestedClaimable :: BN
  vestingEndBlock :: BN
  vestingPerBlock :: BN
  vestingTotal :: BN

section \<open>The lock resolver\<close>

definition VESTING_ID :: "8 word list" where
  "VESTING_ID = [0x76, 0x65, 0x73, 0x74, 0x69, 0x6e, 0x67, 0x20]"

text \<open>
  \<^verbatim>\<open>calcLocked\<close>. The lock list is \<open>None\<close> when the argument is not an array (the
  caller passes \<^verbatim>\<open>allLocks[0]\<close>, which is \<^verbatim>\<open>undefined\<close> for an empty array).
  In the filter, \<^verbatim>\<open>!until\<close> holds exactly when the field is absent: a block number
  is an object, and an object is truthy whatever its value, zero included. The block
  height \<^verbatim>\<open>bestNumber\<close> is an object too, so \<^verbatim>\<open>bestNumber && until.gt(bestNumber)\<close>
  is the comparison. The same goes for \<^verbatim>\<open>amount && ...\<close>.
\<close>

definition calcLocked :: "BN \<Rightarrow> BalanceLock list option \<Rightarrow> AllLocked" where
  "calcLocked bestNumber locks =
     (case locks of
        None \<Rightarrow>
          \<lparr>allLocked = False, lockedBalance = createType_Balance 0,
           lockedBreakdown = [], vestingLocked = createType_Balance 0\<rparr>
      | Some ls \<Rightarrow>
          (let breakdown =
                 filter (\<lambda>l. case until l of None \<Rightarrow> True | Some u \<Rightarrow> u > bestNumber) ls;
               allL = list_ex (\<lambda>l. isMax (amount l)) breakdown;
               vestingL =
                 createType_Balance
                   (foldl (\<lambda>result l. result + amount l) 0
                      (filter (\<lambda>l. id' l = VESTING_ID) breakdown));
               notAll = filter (\<lambda>l. \<not> isMax (amount l)) breakdown;
               lockedB =
                 (case map amount notAll of
                    [] \<Rightarrow> createType_Balance 0
                  | a # as \<Rightarrow> createType_Balance (bnMax a as))
           in \<lparr>allLocked = allL, lockedBalance = lockedB,
               lockedBreakdown = breakdown, vestingLocked = vestingL\<rparr>))"

section \<open>The shared-view composer\<close>

text \<open>
  \<^verbatim>\<open>calcShared\<close>. The raw components are \<open>None\<close> when the caller read them past
  the end of an array (\<^verbatim>\<open>data.additional[index]\<close>): the spread of \<^verbatim>\<open>undefined\<close>
  copies nothing, and \<^verbatim>\<open>data.freeBalance\<close> throws, but only when it is evaluated,
  that is, when \<^verbatim>\<open>allLocked\<close> is false.
\<close>

definition calcShared ::
  "BN \<Rightarrow> 'a DeriveBalancesAccountData_scheme option \<Rightarrow> BalanceLock list option
     \<Rightarrow> error + DeriveBalancesAllAccountData" where
  "calcShared bestNumber dat locks =
     (let r = calcLocked bestNumber locks in
      if allLocked r then
        Inr \<lparr>data = map_option DeriveBalancesAccountData.truncate dat,
             availableBalance = createType_Balance 0,
             lockedBalance = AllLocked.lockedBalance r,
             lockedBreakdown = AllLocked.lockedBreakdown r,
             vestingLocked = AllLocked.vestingLocked r\<rparr>
      else
        (case dat of
           None \<Rightarrow> Inl TypeError
         | Some d \<Rightarrow>
             Inr \<lparr>data = Some (DeriveBalancesAccountData.truncate d),
                  availableBalance =
                    createType_Balance (bnMax 0 [freeBalance d - AllLocked.lockedBalance r]),
                  lockedBalance = AllLocked.lockedBalance r,
                  lockedBreakdown = AllLocked.lockedBreakdown r,
                  vestingLocked = AllLocked.vestingLocked r\<rparr>))"

section \<open>The vesting projection and the full result\<close>

text \<open>Reading an array at an index: \<^verbatim>\<open>undefined\<close>, here \<open>None\<close>, out of range.\<close>

definition js_index :: "'a list \<Rightarrow> int \<Rightarrow> 'a option" where
  "js_index xs i = (if 0 \<le> i \<and> i < int (length xs) then Some (xs ! nat i) else None)"

text \<open>\<^verbatim>\<open>Array.map\<close> with a callback that can throw stops at the first throw.\<close>

fun collect :: "(error + 'a) list \<Rightarrow> error + 'a list" where
  "collect [] = Inr []"
| "collect (x # xs) =
     (case x of
        Inl e \<Rightarrow> Inl e
      | Inr v \<Rightarrow> (case collect xs of Inl e \<Rightarrow> Inl e | Inr vs \<Rightarrow> Inr (v # vs)))"

type_synonym ResultBalance = "VestingInfo option \<times> BalanceLock list option list"

type_synonym Result = "DeriveBalancesAccount \<times> BN \<times> ResultBalance"

text \<open>
  \<^verbatim>\<open>calcBalances\<close>. A lock list of \<^verbatim>\<open>allLocks\<close> can itself be \<^verbatim>\<open>undefined\<close>.
  The fields of the returned object are evaluated in the order written: the views of the
  additional instances come before the division for \<^verbatim>\<open>vestingEndBlock\<close>.
\<close>

fun calcBalances :: "Result \<Rightarrow> error + DeriveBalancesAll" where
  "calcBalances (dat, bestNumber, (vesting, allLocks)) =
     (case calcShared bestNumber (Some dat) (Option.bind (js_index allLocks 0) (\<lambda>l. l)) of
        Inl e \<Rightarrow> Inl e
      | Inr shared \<Rightarrow>
          (let emptyVest = \<lparr>locked = createType_Balance 0, perBlock = createType_Balance 0,
                            startingBlock = createType_BlockNumber 0\<rparr>;
               v = (case vesting of None \<Rightarrow> emptyVest | Some v \<Rightarrow> v);
               vestingTotal' = locked v;
               perBlock' = perBlock v;
               startingBlock' = startingBlock v;
               isStarted = bestNumber > startingBlock';
               vestedNow = (if isStarted then perBlock' * (bestNumber - startingBlock') else 0);
               vestedBalance' =
                 (if vestedNow > vestingTotal' then vestingTotal'
                  else createType_Balance vestedNow);
               isVesting' = (isStarted \<and> \<not> (vestingLocked shared = 0))
           in case collect
                     (map (\<lambda>(index, l).
                             calcShared bestNumber
                               (js_index (DeriveBalancesAccount.additional dat) (int index)) l)
                        (enumerate 0 (tl allLocks))) of
                Inl e \<Rightarrow> Inl e
              | Inr additional' \<Rightarrow>
                  (case (if isVesting' then bn_div vestingTotal' perBlock' else Inr 0) of
                     Inl e \<Rightarrow> Inl e
                   | Inr q \<Rightarrow>
                       Inr \<lparr>data = data shared,
                            availableBalance = availableBalance shared,
                            lockedBalance = lockedBalance shared,
                            lockedBreakdown = lockedBreakdown shared,
                            vestingLocked = vestingLocked shared,
                            accountId = DeriveBalancesAccount.accountId dat,
                            accountNonce = DeriveBalancesAccount.accountNonce dat,
                            additional = additional',
                            isVesting = isVesting',
                            vestedBalance = vestedBalance',
                            vestedClaimable =
                              createType_Balance
                                (if isVesting'
                                 then vestingLocked shared - (vestingTotal' - vestedBalance')
                                 else 0),
                            vestingEndBlock =
                              createType_BlockNumber
                                (if isVesting' then q + startingBlock' else 0),
                            vestingPerBlock = perBlock',
                            vestingTotal = vestingTotal'\<rparr>)))"

section \<open>The query adapter\<close>

text \<open>
  The storage entries the adapter can ask for: a custom lock query of an instance
  (\<^verbatim>\<open>api.derive[m].customLocks\<close>), the lock query of an instance
  (\<^verbatim>\<open>api.query[m].locks\<close>), the unified vesting query (\<^verbatim>\<open>api.query.vesting.vesting\<close>)
  and the legacy one (\<^verbatim>\<open>api.query.balances.vesting\<close>).
\<close>

datatype storage_query = CustomLocks string | ModuleLocks string | VestingVesting | BalancesVesting

text \<open>
  What the derivation asks of its collaborators: a batched query
  (\<^verbatim>\<open>api.queryMulti\<close>, each entry with the account it is asked for) and the feed of the
  best block number.
\<close>

datatype request = QueryMulti "(storage_query \<times> 8 word list) list" | BestNumber

text \<open>The capabilities of the active runtime that the code probes.\<close>

record ApiInterfaceRx =
  derive_customLocks :: "string \<Rightarrow> bool"
  query_locks :: "string \<Rightarrow> bool"
  query_vesting_vesting :: bool
  query_system_account :: bool
  query_balances_account :: bool
  getModuleInstances :: "string list option"

text \<open>
  Modelled from the spec: the storage queries and the best-number feed are external
  collaborators. A batched query gives a tuple of raw values, one per entry and in the
  order asked; the record below holds what each entry holds for an account at the
  moment of one recomputation, and the current block height.
\<close>

record chain =
  storage_locks :: "storage_query \<Rightarrow> 8 word list \<Rightarrow> BalanceLock list"
  storage_vesting :: "8 word list \<Rightarrow> VestingInfo option"
  storage_schedule :: "8 word list \<Rightarrow> VestingSchedule option"
  bestNumber :: BN

text \<open>\<^verbatim>\<open>queryOld\<close>: one batch of two entries; the legacy schedule is renamed field by field.\<close>

definition queryOld :: "chain \<Rightarrow> 8 word list \<Rightarrow> request list \<times> ResultBalance" where
  "queryOld c accId =
     (let locks = storage_locks c (ModuleLocks ''balances'') accId;
          optVesting = storage_schedule c accId;
          vestingNew =
            (case optVesting of
               None \<Rightarrow> None
             | Some s \<Rightarrow>
                 Some \<lparr>locked = offset s, perBlock = VestingSchedule.perBlock s,
                       startingBlock = VestingSchedule.startingBlock s\<rparr>)
      in ([QueryMulti [(ModuleLocks ''balances'', accId), (BalancesVesting, accId)]],
          (vestingNew, [Some locks])))"

text \<open>
  The last step of \<^verbatim>\<open>queryCurrent\<close>:
  \<^verbatim>\<open>lockEmpty.map((e) => e ? createType('Vec<BalanceLock>') : locks[++offset])\<close>,
  with the counter \<^verbatim>\<open>offset\<close> passed along.
\<close>

fun fillEmpty :: "bool list \<Rightarrow> int \<Rightarrow> BalanceLock list list \<Rightarrow> BalanceLock list option list" where
  "fillEmpty [] offs locks = []"
| "fillEmpty (e # es) offs locks =
     (if e then Some [] # fillEmpty es offs locks
      else js_index locks (offs + 1) # fillEmpty es (offs + 1) locks)"

text \<open>
  \<^verbatim>\<open>queryCurrent\<close>. The instance list has the default \<^verbatim>\<open>['balances']\<close> when the
  registry gives none.
\<close>

definition queryCurrent ::
  "ApiInterfaceRx \<Rightarrow> chain \<Rightarrow> 8 word list \<Rightarrow> string list option
     \<Rightarrow> request list \<times> ResultBalance" where
  "queryCurrent api c accId balanceInstances' =
     (let balanceInstances =
            (case balanceInstances' of None \<Rightarrow> [''balances''] | Some ms \<Rightarrow> ms);
          calls =
            map (\<lambda>m. if derive_customLocks api m then Some (CustomLocks m)
                     else if query_locks api m then Some (ModuleLocks m) else None)
              balanceInstances;
          lockEmpty = map (\<lambda>c. c = None) calls;
          queries = map (\<lambda>q. (q, accId)) (List.map_filter (\<lambda>c. c) calls);
          replies = map (\<lambda>(q, a). storage_locks c q a) queries;
          (requests, opt, locks) =
            (if query_vesting_vesting api
             then ([QueryMulti ((VestingVesting, accId) # queries)], storage_vesting c accId, replies)
             else if queries \<noteq> []
             then ([QueryMulti queries], None, replies)
             else ([], None, []))
      in (requests, (opt, fillEmpty lockEmpty (- 1) locks)))"

section \<open>The pipeline, at one recomputation\<close>

text \<open>
  Modelled from the spec: the account-id codec is not among the sources. An account id
  is a byte string; it is empty, the sign of an account unknown on chain, when no byte
  of it is non-zero.
\<close>

definition isEmpty :: "8 word list \<Rightarrow> bool" where
  "isEmpty a = list_all (\<lambda>b. b = 0) a"

text \<open>
  \<^verbatim>\<open>all\<close>, for the balance components \<^verbatim>\<open>account\<close> that the account feed gave for
  the address: the requests it starts and the result of \<^verbatim>\<open>calcBalances\<close>. The
  memoisation and the re-emission on every change of a feed are left out.
\<close>

definition all :: "ApiInterfaceRx \<Rightarrow> chain \<Rightarrow> DeriveBalancesAccount
    \<Rightarrow> request list \<times> (error + DeriveBalancesAll)" where
  "all api c account =
     (let balanceInstances = getModuleInstances api in
      if \<not> isEmpty (DeriveBalancesAccount.accountId account) then
        (let (requests, rb) =
               (if query_system_account api \<or> query_balances_account api
                then queryCurrent api c (DeriveBalancesAccount.accountId account) balanceInstances
                else queryOld c (DeriveBalancesAccount.accountId account))
         in (BestNumber # requests, calcBalances (account, bestNumber c, rb)))
      else ([], calcBalances (account, createType_BlockNumber 0, (None, []))))"

section \<open>Properties of the lock resolver\<close>

lemma foldl_amount_sum:
  "foldl (\<lambda>result l. result + amount l) a xs = a + sum_list (map amount xs)"
  by (induction xs arbitrary: a) simp_all

lemma bnMax_Max: "bnMax x xs = Max (set (x # xs))"
  unfolding bnMax_def by (rule Max.set_eq_fold [symmetric])

lemma allLocked_calcLocked:
  "allLocked (calcLocked h locks) =
     (\<exists>l \<in> set (AllLocked.lockedBreakdown (calcLocked h locks)). amount l = MAX_BALANCE)"
  by (cases locks) (simp_all add: calcLocked_def Let_def list_ex_iff isMax_def)

text \<open>
  The resolver's figures in terms of its input. An entry of the lock list is active at
  height \<open>h\<close> when its \<open>until\<close> is absent or strictly greater than \<open>h\<close>; no list counts
  as the empty list.
\<close>

lemma lockedBreakdown_calcLocked:
  "AllLocked.lockedBreakdown (calcLocked h locks) =
     filter (\<lambda>l. until l = None \<or> (\<exists>u. until l = Some u \<and> h < u))
       (case locks of None \<Rightarrow> [] | Some ls \<Rightarrow> ls)"
proof (cases locks)
  case None
  then show ?thesis by (simp add: calcLocked_def)
next
  case (Some ls)
  have "filter (\<lambda>l. case until l of None \<Rightarrow> True | Some u \<Rightarrow> h < u) ls =
        filter (\<lambda>l. until l = None \<or> (\<exists>u. until l = Some u \<and> h < u)) ls"
    by (rule filter_cong) (auto split: option.splits)
  with Some show ?thesis by (simp add: calcLocked_def Let_def)
qed

lemma lockedBalance_calcLocked:
  "AllLocked.lockedBalance (calcLocked h locks) =
     (let A = amount ` {l \<in> set (case locks of None \<Rightarrow> [] | Some ls \<Rightarrow> ls).
                          (until l = None \<or> (\<exists>u. until l = Some u \<and> h < u)) \<and>
                          amount l \<noteq> MAX_BALANCE}
      in if A = {} then 0 else Max A)"
proof -
  define bd where "bd = AllLocked.lockedBreakdown (calcLocked h locks)"
  define na where "na = map amount (filter (\<lambda>l. \<not> isMax (amount l)) bd)"
  have A: "amount ` {l \<in> set (case locks of None \<Rightarrow> [] | Some ls \<Rightarrow> ls).
                          (until l = None \<or> (\<exists>u. until l = Some u \<and> h < u)) \<and>
                          amount l \<noteq> MAX_BALANCE} = set na"
    unfolding na_def bd_def lockedBreakdown_calcLocked by (auto simp: isMax_def)
  have lb: "AllLocked.lockedBalance (calcLocked h locks) =
        (case na of [] \<Rightarrow> 0 | a # as \<Rightarrow> bnMax a as)"
    unfolding na_def bd_def
    by (cases locks)
      (simp_all add: calcLocked_def Let_def createType_Balance_def split: list.splits)
  show ?thesis
    unfolding Let_def A lb
    by (cases na) (simp_all add: bnMax_Max)
qed

text \<open>
  Claim C1, as amended. For every block height and every lock list, the resolver's
  \<open>lockedBreakdown\<close> holds exactly the entries, in their order, whose \<open>until\<close> is absent
  or strictly greater than the current height; it is empty when the input is no list.
  An entry that carries \<open>until\<close> is compared whatever the value: with \<open>until\<close> equal to
  zero it is kept only below height zero, so it is not treated as indefinite.
\<close>

theorem calcLocked_lockedBreakdown_active:
  "AllLocked.lockedBreakdown (calcLocked h locks) =
     (case locks of
        None \<Rightarrow> []
      | Some ls \<Rightarrow> filter (\<lambda>l. until l = None \<or> (\<exists>u. until l = Some u \<and> h < u)) ls)"
proof (cases locks)
  case None
  then show ?thesis by (simp add: calcLocked_def)
next
  case (Some ls)
  have "filter (\<lambda>l. case until l of None \<Rightarrow> True | Some u \<Rightarrow> h < u) ls =
        filter (\<lambda>l. until l = None \<or> (\<exists>u. until l = Some u \<and> h < u)) ls"
    by (rule filter_cong) (auto split: option.splits)
  with Some show ?thesis by (simp add: calcLocked_def Let_def)
qed

text \<open>
  Claim C1 as first stated fails: at height 5 a lock whose \<open>until\<close> is zero is dropped
  from the breakdown, not kept as indefinite.
\<close>

theorem calcLocked_zero_until_excluded:
  "AllLocked.lockedBreakdown
     (calcLocked 5 (Some [\<lparr>id' = [], amount = 7, until = Some 0\<rparr>])) = []"
  by (simp add: calcLocked_def)

text \<open>
  Claim C5. For every block height and lock list, the resolver's \<open>lockedBalance\<close> is the
  largest single amount, not the sum, among the entries of the list that are active at
  that height (\<open>until\<close> absent or strictly greater than the height) and whose amount is
  not the sentinel maximum; it is 0 when there is no such entry, and when the input is no
  list.
\<close>

theorem calcLocked_lockedBalance_max:
  "AllLocked.lockedBalance (calcLocked h locks) =
     (let A = amount ` {l \<in> set (case locks of None \<Rightarrow> [] | Some ls \<Rightarrow> ls).
                          (until l = None \<or> (\<exists>u. until l = Some u \<and> h < u)) \<and>
                          amount l \<noteq> MAX_BALANCE}
      in if A = {} then 0 else Max A)"
proof -
  define notAll where
    "notAll = filter (\<lambda>l. \<not> isMax (amount l)) (AllLocked.lockedBreakdown (calcLocked h locks))"
  have amounts: "amount ` {l \<in> set (case locks of None \<Rightarrow> [] | Some ls \<Rightarrow> ls).
                     (until l = None \<or> (\<exists>u. until l = Some u \<and> h < u)) \<and>
                     amount l \<noteq> MAX_BALANCE} = set (map amount notAll)"
    unfolding notAll_def lockedBreakdown_calcLocked by (auto simp: isMax_def)
  have balance: "AllLocked.lockedBalance (calcLocked h locks) =
        (case map amount notAll of [] \<Rightarrow> 0 | a # as \<Rightarrow> bnMax a as)"
    unfolding notAll_def
    by (cases locks)
      (simp_all add: calcLocked_def Let_def createType_Balance_def split: list.splits)
  show ?thesis
  proof (cases "map amount notAll")
    case Nil
    with amounts balance show ?thesis by (simp add: Let_def)
  next
    case (Cons a as)
    with balance have "AllLocked.lockedBalance (calcLocked h locks) = Max (set (a # as))"
      by (simp add: bnMax_Max)
    with amounts Cons show ?thesis by (simp add: Let_def)
  qed
qed

text \<open>
  Claim C8. For every block height and lock list, the resolver's \<open>vestingLocked\<close> is the
  sum of the amounts of the entries of the list that are active at that height (\<open>until\<close>
  absent or strictly greater than the height) and whose identifier is the reserved
  vesting tag, the eight bytes of the text \<open>vesting\<close> followed by a space; the sum is 0
  when there is none, and when the input is no list.
\<close>

theorem calcLocked_vestingLocked_sum:
  "AllLocked.vestingLocked (calcLocked h locks) =
     sum_list (map amount
       (filter (\<lambda>l. (until l = None \<or> (\<exists>u. until l = Some u \<and> h < u)) \<and>
                     id' l = VESTING_ID)
          (case locks of None \<Rightarrow> [] | Some ls \<Rightarrow> ls)))
   \<and> VESTING_ID = map (\<lambda>ch. of_nat (of_char ch)) ''vesting ''"
proof
  have "AllLocked.vestingLocked (calcLocked h locks) =
     sum_list (map amount (filter (\<lambda>l. id' l = VESTING_ID)
                             (AllLocked.lockedBreakdown (calcLocked h locks))))"
    by (cases locks)
      (simp_all add: calcLocked_def Let_def createType_Balance_def foldl_amount_sum)
  then show "AllLocked.vestingLocked (calcLocked h locks) =
     sum_list (map amount
       (filter (\<lambda>l. (until l = None \<or> (\<exists>u. until l = Some u \<and> h < u)) \<and>
                     id' l = VESTING_ID)
          (case locks of None \<Rightarrow> [] | Some ls \<Rightarrow> ls)))"
    unfolding lockedBreakdown_calcLocked by (simp add: conj_commute)
  show "VESTING_ID = map (\<lambda>ch. of_nat (of_char ch)) ''vesting ''"
    by (simp add: VESTING_ID_def)
qed

section \<open>Properties of the shared-view composer\<close>

lemma calcShared_Some_Inr: "\<exists>r. calcShared h (Some d) locks = Inr r"
  by (simp add: calcShared_def Let_def)

text \<open>
  Claim C4. For every block height, balance components and lock list, the composer
  returns a view. If some entry of the list is active at that height (\<open>until\<close> absent or
  strictly greater than the height) and has the sentinel maximum as amount, the view's
  \<open>availableBalance\<close> is 0 whatever the free balance; otherwise it is
  \<open>max 0 (freeBalance - lockedBalance)\<close>, where \<open>lockedBalance\<close> is the largest amount
  among the active entries without the sentinel, or 0 when there is none.
\<close>

theorem calcShared_sentinel_or_difference:
  "\<exists>r. calcShared h (Some d) locks = Inr r \<and>
       availableBalance r =
         (if \<exists>l \<in> set (case locks of None \<Rightarrow> [] | Some ls \<Rightarrow> ls).
               (until l = None \<or> (\<exists>u. until l = Some u \<and> h < u)) \<and> amount l = MAX_BALANCE
          then 0
          else max 0 (freeBalance d - lockedBalance r)) \<and>
       lockedBalance r =
         (let A = amount ` {l \<in> set (case locks of None \<Rightarrow> [] | Some ls \<Rightarrow> ls).
                              (until l = None \<or> (\<exists>u. until l = Some u \<and> h < u)) \<and>
                              amount l \<noteq> MAX_BALANCE}
          in if A = {} then 0 else Max A)"
proof -
  have al: "allLocked (calcLocked h locks) =
      (\<exists>l \<in> set (case locks of None \<Rightarrow> [] | Some ls \<Rightarrow> ls).
          (until l = None \<or> (\<exists>u. until l = Some u \<and> h < u)) \<and> amount l = MAX_BALANCE)"
    unfolding allLocked_calcLocked lockedBreakdown_calcLocked by auto
  show ?thesis
    unfolding al [symmetric] lockedBalance_calcLocked [symmetric]
    by (simp add: calcShared_def Let_def createType_Balance_def bnMax_def max.commute)
qed

lemma lockedBalance_calcLocked_nonneg:
  assumes "\<forall>ls \<in> set_option locks. \<forall>l \<in> set ls. 0 \<le> amount l"
  shows "0 \<le> AllLocked.lockedBalance (calcLocked h locks)"
proof (cases locks)
  case None
  then show ?thesis by (simp add: calcLocked_def createType_Balance_def)
next
  case (Some ls)
  define na where "na = map amount (filter (\<lambda>l. \<not> isMax (amount l))
      (filter (\<lambda>l. case until l of None \<Rightarrow> True | Some u \<Rightarrow> h < u) ls))"
  have pos: "\<forall>a \<in> set na. 0 \<le> a"
    using assms Some by (auto simp: na_def)
  have lb: "AllLocked.lockedBalance (calcLocked h locks) =
        (case na of [] \<Rightarrow> 0 | a # as \<Rightarrow> bnMax a as)"
    using Some
    by (simp add: calcLocked_def Let_def na_def createType_Balance_def split: list.splits)
  show ?thesis
  proof (cases na)
    case Nil
    with lb show ?thesis by simp
  next
    case (Cons a as)
    have "Max (set (a # as)) \<in> set (a # as)" by (rule Max_in) simp_all
    with pos Cons have "0 \<le> Max (set (a # as))" by blast
    with lb Cons show ?thesis by (simp add: bnMax_Max)
  qed
qed

text \<open>
  Claim C10. For every block height, balance components with a non-negative free
  balance and lock input (a list of locks, whose amounts are unsigned, or no list at
  all), the composer returns a view with \<open>0 \<le> availableBalance \<le> freeBalance\<close>.
\<close>

theorem calcShared_availableBalance_bounds:
  assumes "0 \<le> freeBalance d"
    and "\<forall>ls \<in> set_option locks. \<forall>l \<in> set ls. 0 \<le> amount l"
  shows "\<exists>r. calcShared h (Some d) locks = Inr r \<and>
             0 \<le> availableBalance r \<and> availableBalance r \<le> freeBalance d"
  using assms(1) lockedBalance_calcLocked_nonneg [OF assms(2), of h]
  by (simp add: calcShared_def Let_def createType_Balance_def bnMax_def)

theorem calcShared_availableBalance_bounds_witness:
  "(0::int) \<le> 100 \<and>
   (\<exists>r. calcShared 5 (Some \<lparr>freeBalance = 100, reservedBalance = 0\<rparr>)
           (Some [\<lparr>id' = [], amount = 30, until = None\<rparr>]) = Inr r \<and>
        0 \<le> availableBalance r \<and> availableBalance r \<le> 100)"
  using calcShared_availableBalance_bounds [of "\<lparr>freeBalance = 100, reservedBalance = 0\<rparr>"
      "Some [\<lparr>id' = [], amount = 30, until = None\<rparr>]" 5]
  by simp

section \<open>Properties of the vesting projection\<close>

lemma collect_Inr:
  "(\<And>x. x \<in> set xs \<Longrightarrow> \<exists>v. x = Inr v) \<Longrightarrow> \<exists>vs. collect xs = Inr vs"
proof (induction xs)
  case Nil
  then show ?case by simp
next
  case (Cons x xs)
  from Cons.prems obtain v where "x = Inr v" by auto
  moreover from Cons obtain vs where "collect xs = Inr vs" by auto
  ultimately show ?case by simp
qed

lemma additional_views_Inr:
  assumes "length ls \<le> length ds"
  shows "\<exists>vs. collect (map (\<lambda>(index, l). calcShared h (js_index ds (int index)) l)
                          (enumerate 0 ls)) = Inr vs"
proof (rule collect_Inr)
  fix x
  assume "x \<in> set (map (\<lambda>(index, l). calcShared h (js_index ds (int index)) l)
                      (enumerate 0 ls))"
  then obtain i l where il: "(i, l) \<in> set (enumerate 0 ls)"
    and x: "x = calcShared h (js_index ds (int i)) l" by auto
  from il have "i < length ls" by (auto simp: in_set_enumerate_eq)
  with assms have "js_index ds (int i) = Some (ds ! i)" by (simp add: js_index_def)
  with x show "\<exists>v. x = Inr v" using calcShared_Some_Inr by simp
qed

text \<open>
  With a schedule whose \<open>perBlock\<close> is not zero and raw components for every additional
  lock list, \<open>calcBalances\<close> returns a result.
\<close>

lemma calcBalances_returns:
  assumes "perBlock v \<noteq> 0"
    and "length (tl allLocks) \<le> length (DeriveBalancesAccount.additional dat)"
  shows "\<exists>r. calcBalances (dat, h, (Some v, allLocks)) = Inr r"
proof -
  obtain sh where
    sh: "calcShared h (Some dat) (Option.bind (js_index allLocks 0) (\<lambda>l. l)) = Inr sh"
    using calcShared_Some_Inr by blast
  obtain vs where
    vs: "collect (map (\<lambda>(index, l).
                        calcShared h (js_index (DeriveBalancesAccount.additional dat) (int index)) l)
                    (enumerate 0 (tl allLocks))) = Inr vs"
    using additional_views_Inr [OF assms(2)] by blast
  show ?thesis
    using assms(1) by (simp add: sh vs Let_def bn_div_def)
qed

text \<open>What a returned result holds in its vesting fields, for a schedule or none.\<close>

lemma calcBalances_fields:
  assumes "calcBalances (dat, h, (vesting, allLocks)) = Inr r"
  shows "vestingTotal r = (case vesting of None \<Rightarrow> 0 | Some v \<Rightarrow> locked v)"
    and "vestingPerBlock r = (case vesting of None \<Rightarrow> 0 | Some v \<Rightarrow> perBlock v)"
    and "isVesting r =
           ((case vesting of None \<Rightarrow> 0 | Some v \<Rightarrow> startingBlock v) < h \<and> vestingLocked r \<noteq> 0)"
    and "vestedBalance r =
           min (if (case vesting of None \<Rightarrow> 0 | Some v \<Rightarrow> startingBlock v) < h
                then vestingPerBlock r *
                     (h - (case vesting of None \<Rightarrow> 0 | Some v \<Rightarrow> startingBlock v))
                else 0)
               (vestingTotal r)"
    and "isVesting r \<Longrightarrow>
           bn_div (vestingTotal r) (vestingPerBlock r) =
             Inr (vestingEndBlock r - (case vesting of None \<Rightarrow> 0 | Some v \<Rightarrow> startingBlock v))"
    and "\<not> isVesting r \<Longrightarrow> vestingEndBlock r = 0 \<and> vestedClaimable r = 0"
  using assms
  by (auto simp: Let_def createType_Balance_def createType_BlockNumber_def
      split: sum.splits if_splits option.splits)

lemma calcBalances_vestingLocked:
  assumes "calcBalances (dat, h, (vesting, allLocks)) = Inr r"
  shows "vestingLocked r =
           AllLocked.vestingLocked (calcLocked h (Option.bind (js_index allLocks 0) (\<lambda>l. l)))"
proof -
  obtain sh where
    sh: "calcShared h (Some dat) (Option.bind (js_index allLocks 0) (\<lambda>l. l)) = Inr sh"
    using calcShared_Some_Inr by blast
  then have "vestingLocked sh =
      AllLocked.vestingLocked (calcLocked h (Option.bind (js_index allLocks 0) (\<lambda>l. l)))"
    by (auto simp: calcShared_def Let_def split: if_splits)
  moreover have "vestingLocked r = vestingLocked sh"
    using assms by (auto simp: sh Let_def split: sum.splits)
  ultimately show ?thesis by simp
qed

lemma bn_div_floor: "0 \<le> a \<Longrightarrow> 0 < b \<Longrightarrow> bn_div a b = Inr (a div b)"
  by (cases "a = 0") (simp_all add: bn_div_def)

text \<open>
  With no schedule, a result that is returned has its six vesting fields zero or false:
  a result with \<open>isVesting\<close> would need the quotient of zero by zero.
\<close>

lemma calcBalances_without_schedule:
  assumes "calcBalances (dat, h, (None, allLocks)) = Inr r"
  shows "\<not> isVesting r \<and> vestedBalance r = 0 \<and> vestedClaimable r = 0 \<and>
         vestingEndBlock r = 0 \<and> vestingPerBlock r = 0 \<and> vestingTotal r = 0"
proof -
  have nv: "\<not> isVesting r"
  proof
    assume "isVesting r"
    from calcBalances_fields(5) [OF assms this] calcBalances_fields(1,2) [OF assms]
    show False by (simp add: bn_div_def)
  qed
  with calcBalances_fields(1,2,4,6) [OF assms] show ?thesis by simp
qed

text \<open>
  Claim C2 does not hold of the code. With no schedule the code takes the all-zero
  \<open>emptyVest\<close>, yet \<open>isVesting\<close> only asks for a height above zero and a non-zero
  \<open>vestingLocked\<close>: at height 1, for an account with one active lock of amount 1 tagged
  as vesting, the division of zero by zero for \<open>vestingEndBlock\<close> is reached and the
  computation throws.
\<close>

theorem calcBalances_no_schedule_vesting_lock_throws:
  "calcBalances
     (\<lparr>freeBalance = 100, reservedBalance = 0, DeriveBalancesAccount.accountId = [1],
       DeriveBalancesAccount.accountNonce = 0, DeriveBalancesAccount.additional = []\<rparr>,
      1, (None, [Some [\<lparr>id' = VESTING_ID, amount = 1, until = None\<rparr>]])) =
   Inl DivisionByZero"
  by (simp add: calcShared_def calcLocked_def Let_def createType_Balance_def
      createType_BlockNumber_def bn_div_def js_index_def isMax_def MAX_BALANCE_def
      bnMax_def enumerate_eq_zip)

text \<open>
  Claim C3, as amended. For every vesting schedule with \<open>perBlock > 0\<close> and a
  non-negative total, whenever a result is vesting its \<open>vestingEndBlock\<close> is
  \<open>startingBlock\<close> plus the integer quotient of the total by \<open>perBlock\<close>, rounded down
  (and it is 0 when the result is not vesting); a result is returned whenever there are
  raw components for every additional lock list.
\<close>

theorem calcBalances_vestingEndBlock_floor:
  assumes "0 < perBlock v" and "0 \<le> locked v"
  shows "(\<forall>r. calcBalances (dat, h, (Some v, allLocks)) = Inr r \<longrightarrow>
            vestingEndBlock r =
              (if isVesting r then startingBlock v + locked v div perBlock v else 0)) \<and>
         (length (tl allLocks) \<le> length (DeriveBalancesAccount.additional dat) \<longrightarrow>
            (\<exists>r. calcBalances (dat, h, (Some v, allLocks)) = Inr r))"
proof (intro conjI allI impI)
  fix r
  assume r: "calcBalances (dat, h, (Some v, allLocks)) = Inr r"
  show "vestingEndBlock r =
          (if isVesting r then startingBlock v + locked v div perBlock v else 0)"
  proof (cases "isVesting r")
    case True
    from calcBalances_fields(5) [OF r True] calcBalances_fields(1,2) [OF r] assms
    show ?thesis using True by (simp add: bn_div_floor)
  next
    case False
    with calcBalances_fields(6) [OF r] show ?thesis by simp
  qed
next
  assume "length (tl allLocks) \<le> length (DeriveBalancesAccount.additional dat)"
  with assms(1) show "\<exists>r. calcBalances (dat, h, (Some v, allLocks)) = Inr r"
    using calcBalances_returns [of v allLocks dat h] by simp
qed

text \<open>
  The schedule of the claim (total 95, 10 per block, start at block 5) with the total
  under a vesting lock, at height 10: the result is vesting and ends at block 14.
\<close>

theorem calcBalances_vestingEndBlock_floor_witness:
  "(0::int) < 10 \<and> (0::int) \<le> 95 \<and>
   (\<exists>r. calcBalances
          (\<lparr>freeBalance = 100, reservedBalance = 0, DeriveBalancesAccount.accountId = [1],
            DeriveBalancesAccount.accountNonce = 0, DeriveBalancesAccount.additional = []\<rparr>,
           10, (Some \<lparr>locked = 95, perBlock = 10, startingBlock = 5\<rparr>,
                [Some [\<lparr>id' = VESTING_ID, amount = 95, until = None\<rparr>]])) = Inr r \<and>
        isVesting r \<and> vestingEndBlock r = 14)"
proof -
  let ?a = "\<lparr>freeBalance = 100, reservedBalance = 0, DeriveBalancesAccount.accountId = [1],
            DeriveBalancesAccount.accountNonce = 0, DeriveBalancesAccount.additional = []\<rparr>"
  let ?v = "\<lparr>locked = 95, perBlock = 10, startingBlock = 5\<rparr>"
  let ?ls = "[Some [\<lparr>id' = VESTING_ID, amount = 95, until = None\<rparr>]]"
  have p: "0 < perBlock ?v" by simp
  have t: "0 \<le> locked ?v" by simp
  note th = calcBalances_vestingEndBlock_floor [OF p t, of ?a 10 ?ls]
  from th obtain r where r: "calcBalances (?a, 10, (Some ?v, ?ls)) = Inr r"
    by (auto simp del: calcBalances.simps)
  from calcBalances_fields(3) [OF r] calcBalances_vestingLocked [OF r]
  have v: "isVesting r"
    by (simp add: calcLocked_def Let_def createType_Balance_def js_index_def)
  from th r v have "vestingEndBlock r = 14"
    by (simp del: calcBalances.simps)
  with r v show ?thesis by (simp del: calcBalances.simps)
qed

text \<open>
  Claim C3 as first stated fails: for a total of 95, 10 per block and a start at block 5,
  with the whole total under a vesting lock at height 10, the result is vesting and its
  \<open>vestingEndBlock\<close> is 14, not the rounded-up 15.
\<close>

theorem calcBalances_vestingEndBlock_14:
  "calcBalances
     (\<lparr>freeBalance = 100, reservedBalance = 0, DeriveBalancesAccount.accountId = [1],
       DeriveBalancesAccount.accountNonce = 0, DeriveBalancesAccount.additional = []\<rparr>,
      10, (Some \<lparr>locked = 95, perBlock = 10, startingBlock = 5\<rparr>,
           [Some [\<lparr>id' = VESTING_ID, amount = 95, until = None\<rparr>]])) =
   Inr \<lparr>data = Some \<lparr>freeBalance = 100, reservedBalance = 0\<rparr>,
        availableBalance = 5, lockedBalance = 95,
        lockedBreakdown = [\<lparr>id' = VESTING_ID, amount = 95, until = None\<rparr>],
        vestingLocked = 95, accountId = [1], accountNonce = 0, additional = [],
        isVesting = True, vestedBalance = 50, vestedClaimable = 50, vestingEndBlock = 14,
        vestingPerBlock = 10, vestingTotal = 95\<rparr>"
  by (simp add: calcShared_def calcLocked_def Let_def createType_Balance_def
      createType_BlockNumber_def bn_div_def js_index_def isMax_def MAX_BALANCE_def
      bnMax_def enumerate_eq_zip DeriveBalancesAccountData.truncate_def)

text \<open>
  Claim C7. For every vesting schedule and every block height, a result that is returned
  has as \<open>vestedBalance\<close> the smaller of the total and of what has unlocked, which is
  \<open>perBlock * (height - startingBlock)\<close> once the height is strictly above
  \<open>startingBlock\<close> and 0 before; its \<open>isVesting\<close> says that the height is strictly above
  \<open>startingBlock\<close> and that \<open>vestingLocked\<close>, the lock resolver's figure for the primary
  lock list, is not zero. A result is returned whenever \<open>perBlock\<close> is not zero, as a
  schedule has it, and there are raw components for every additional lock list.
\<close>

theorem calcBalances_vesting_projection:
  "(\<forall>r. calcBalances (dat, h, (Some v, allLocks)) = Inr r \<longrightarrow>
        vestedBalance r =
          min (if h > startingBlock v then perBlock v * (h - startingBlock v) else 0)
              (locked v) \<and>
        isVesting r = (h > startingBlock v \<and> vestingLocked r \<noteq> 0) \<and>
        vestingLocked r =
          AllLocked.vestingLocked
            (calcLocked h (Option.bind (js_index allLocks 0) (\<lambda>l. l)))) \<and>
   (perBlock v \<noteq> 0 \<and>
    length (tl allLocks) \<le> length (DeriveBalancesAccount.additional dat) \<longrightarrow>
      (\<exists>r. calcBalances (dat, h, (Some v, allLocks)) = Inr r))"
proof (intro conjI allI impI)
  fix r
  assume r: "calcBalances (dat, h, (Some v, allLocks)) = Inr r"
  from calcBalances_fields(1,2,4) [OF r]
  show "vestedBalance r =
          min (if h > startingBlock v then perBlock v * (h - startingBlock v) else 0)
              (locked v)"
    by simp
  from calcBalances_fields(3) [OF r]
  show "isVesting r = (h > startingBlock v \<and> vestingLocked r \<noteq> 0)"
    by simp
  from r show "vestingLocked r =
          AllLocked.vestingLocked
            (calcLocked h (Option.bind (js_index allLocks 0) (\<lambda>l. l)))"
    by (rule calcBalances_vestingLocked)
next
  assume "perBlock v \<noteq> 0 \<and>
    length (tl allLocks) \<le> length (DeriveBalancesAccount.additional dat)"
  then show "\<exists>r. calcBalances (dat, h, (Some v, allLocks)) = Inr r"
    using calcBalances_returns [of v allLocks dat h] by simp
qed

text \<open>
  The schedule of the claim (total 100, 10 per block, start at block 5), with the total
  under a vesting lock: nothing is vested at height 5, 30 at height 8, and 100, not 150,
  at height 15.
\<close>

theorem calcBalances_vesting_projection_witness:
  "(\<exists>r. calcBalances
          (\<lparr>freeBalance = 100, reservedBalance = 0, DeriveBalancesAccount.accountId = [1],
            DeriveBalancesAccount.accountNonce = 0, DeriveBalancesAccount.additional = []\<rparr>,
           5, (Some \<lparr>locked = 100, perBlock = 10, startingBlock = 5\<rparr>,
               [Some [\<lparr>id' = VESTING_ID, amount = 100, until = None\<rparr>]])) = Inr r \<and>
        vestedBalance r = 0 \<and> isVesting r = False) \<and>
   (\<exists>r. calcBalances
          (\<lparr>freeBalance = 100, reservedBalance = 0, DeriveBalancesAccount.accountId = [1],
            DeriveBalancesAccount.accountNonce = 0, DeriveBalancesAccount.additional = []\<rparr>,
           8, (Some \<lparr>locked = 100, perBlock = 10, startingBlock = 5\<rparr>,
               [Some [\<lparr>id' = VESTING_ID, amount = 100, until = None\<rparr>]])) = Inr r \<and>
        vestedBalance r = 30 \<and> isVesting r = True) \<and>
   (\<exists>r. calcBalances
          (\<lparr>freeBalance = 100, reservedBalance = 0, DeriveBalancesAccount.accountId = [1],
            DeriveBalancesAccount.accountNonce = 0, DeriveBalancesAccount.additional = []\<rparr>,
           15, (Some \<lparr>locked = 100, perBlock = 10, startingBlock = 5\<rparr>,
                [Some [\<lparr>id' = VESTING_ID, amount = 100, until = None\<rparr>]])) = Inr r \<and>
        vestedBalance r = 100 \<and> isVesting r = True)"
proof -
  let ?a = "\<lparr>freeBalance = 100, reservedBalance = 0, DeriveBalancesAccount.accountId = [1],
            DeriveBalancesAccount.accountNonce = 0, DeriveBalancesAccount.additional = []\<rparr>"
  let ?v = "\<lparr>locked = 100, perBlock = 10, startingBlock = 5\<rparr>"
  let ?ls = "[Some [\<lparr>id' = VESTING_ID, amount = 100, until = None\<rparr>]]"
  have vl: "AllLocked.vestingLocked
              (calcLocked h (Option.bind (js_index ?ls 0) (\<lambda>l. l))) = 100" for h
    by (simp add: calcLocked_def Let_def createType_Balance_def js_index_def)
  have step: "\<exists>r. calcBalances (?a, h, (Some ?v, ?ls)) = Inr r \<and>
        vestedBalance r = min (if 5 < h then 10 * (h - 5) else 0) 100 \<and>
        isVesting r = (5 < h)" for h
  proof -
    note t = calcBalances_vesting_projection [of ?a h ?v ?ls]
    from t obtain r where r: "calcBalances (?a, h, (Some ?v, ?ls)) = Inr r"
      by (auto simp del: calcBalances.simps)
    with t have "vestedBalance r = min (if 5 < h then 10 * (h - 5) else 0) 100"
      and "isVesting r = (5 < h \<and> vestingLocked r \<noteq> 0)"
      and "vestingLocked r = 100"
      by (simp_all del: calcBalances.simps add: vl)
    with r show ?thesis by (simp del: calcBalances.simps)
  qed
  from step [of 5] step [of 8] step [of 15] show ?thesis
    by (simp del: calcBalances.simps)
qed

section \<open>Properties of the query adapter and of the pipeline\<close>

lemma js_index_append_length: "js_index (pre @ x # rest) (int (length pre)) = Some x"
  by (simp add: js_index_def)

text \<open>
  The counter of \<open>fillEmpty\<close> walks through the replies in step with the resolved calls:
  after \<open>pre\<close> has been consumed, each resolved call finds its own reply.
\<close>

lemma fillEmpty_replies:
  "fillEmpty (map (\<lambda>c. c = None) calls) (int (length pre) - 1)
       (pre @ map f (List.map_filter (\<lambda>c. c) calls)) =
     map (\<lambda>c. case c of None \<Rightarrow> Some [] | Some q \<Rightarrow> Some (f q)) calls"
proof (induction calls arbitrary: pre)
  case Nil
  then show ?case by simp
next
  case (Cons c calls)
  show ?case
  proof (cases c)
    case None
    with Cons.IH [of pre] show ?thesis by (simp add: map_filter_simps)
  next
    case (Some q)
    have "fillEmpty (map (\<lambda>c. c = None) calls) (int (length (pre @ [f q])) - 1)
            ((pre @ [f q]) @ map f (List.map_filter (\<lambda>c. c) calls)) =
          map (\<lambda>c. case c of None \<Rightarrow> Some [] | Some q \<Rightarrow> Some (f q)) calls"
      by (rule Cons.IH)
    with Some show ?thesis
      by (simp add: map_filter_simps js_index_append_length)
  qed
qed

lemma queryCurrent_lock_lists:
  "snd (snd (queryCurrent api c a bi)) =
     map (\<lambda>m. Some (if derive_customLocks api m then storage_locks c (CustomLocks m) a
                     else if query_locks api m then storage_locks c (ModuleLocks m) a
                     else []))
       (case bi of None \<Rightarrow> [''balances''] | Some ms \<Rightarrow> ms)"
proof -
  define ms where "ms = (case bi of None \<Rightarrow> [''balances''] | Some ms \<Rightarrow> ms)"
  define calls where
    "calls = map (\<lambda>m. if derive_customLocks api m then Some (CustomLocks m)
                      else if query_locks api m then Some (ModuleLocks m) else None) ms"
  define f where "f = (\<lambda>q. storage_locks c q a)"
  define replies where "replies = map f (List.map_filter (\<lambda>c. c) calls)"
  have q0: "List.map_filter (\<lambda>c. c) calls = [] \<Longrightarrow> replies = []"
    by (simp add: replies_def)
  have "snd (snd (queryCurrent api c a bi)) =
          fillEmpty (map (\<lambda>c. c = None) calls) (- 1) replies"
    using q0
    by (simp add: queryCurrent_def Let_def ms_def calls_def replies_def f_def comp_def
        split: prod.splits)
  also have "\<dots> = map (\<lambda>c. case c of None \<Rightarrow> Some [] | Some q \<Rightarrow> Some (f q)) calls"
    using fillEmpty_replies [of calls "[]" f] by (simp add: replies_def)
  also have "\<dots> =
      map (\<lambda>m. Some (if derive_customLocks api m then storage_locks c (CustomLocks m) a
                      else if query_locks api m then storage_locks c (ModuleLocks m) a
                      else [])) ms"
    by (simp add: calls_def f_def)
  finally show ?thesis by (simp add: ms_def)
qed

lemma queryCurrent_requests:
  "list_all (\<lambda>req. case req of
                QueryMulti qs \<Rightarrow>
                  list_all (\<lambda>(q, a'). a' = a \<and>
                     (case q of
                        CustomLocks m \<Rightarrow> derive_customLocks api m
                      | ModuleLocks m \<Rightarrow> query_locks api m
                      | VestingVesting \<Rightarrow> query_vesting_vesting api
                      | BalancesVesting \<Rightarrow> False)) qs
              | BestNumber \<Rightarrow> False)
     (fst (queryCurrent api c a bi))"
  by (auto simp: queryCurrent_def Let_def list_all_iff map_filter_def split: if_splits)

text \<open>
  Claim C6. For every configured list of balance-module instances (the default
  \<open>balances\<close> when none is configured) the adapter for the current chain shape returns
  one lock list per instance, in the order of the instances: what the chain holds for
  the instance's lock query (the custom one first) where it resolves, and the empty list
  where it does not. The adapter has no failing outcome, and every entry of the batch
  it asks for is a query the runtime has: an unresolved instance puts nothing in it.
\<close>

theorem queryCurrent_one_list_per_instance:
  "snd (snd (queryCurrent api c a bi)) =
     map (\<lambda>m. Some (if derive_customLocks api m then storage_locks c (CustomLocks m) a
                     else if query_locks api m then storage_locks c (ModuleLocks m) a
                     else []))
       (case bi of None \<Rightarrow> [''balances''] | Some ms \<Rightarrow> ms) \<and>
   length (snd (snd (queryCurrent api c a bi))) =
     length (case bi of None \<Rightarrow> [''balances''] | Some ms \<Rightarrow> ms) \<and>
   list_all (\<lambda>req. case req of
                QueryMulti qs \<Rightarrow>
                  list_all (\<lambda>(q, a'). a' = a \<and>
                     (case q of
                        CustomLocks m \<Rightarrow> derive_customLocks api m
                      | ModuleLocks m \<Rightarrow> query_locks api m
                      | VestingVesting \<Rightarrow> query_vesting_vesting api
                      | BalancesVesting \<Rightarrow> False)) qs
              | BestNumber \<Rightarrow> False)
     (fst (queryCurrent api c a bi))"
  using queryCurrent_lock_lists [of api c a bi] queryCurrent_requests [of a api c bi]
  by simp

text \<open>
  Three configured instances of which only the second has a lock query: three lists,
  the first and the third empty, and one batch holding the vesting query and the one
  lock query.
\<close>

theorem queryCurrent_one_list_per_instance_witness:
  "queryCurrent
     \<lparr>derive_customLocks = (\<lambda>m. False), query_locks = (\<lambda>m. m = ''second''),
      query_vesting_vesting = True, query_system_account = True,
      query_balances_account = False,
      getModuleInstances = Some [''first'', ''second'', ''third'']\<rparr>
     \<lparr>storage_locks = (\<lambda>q a. [\<lparr>id' = VESTING_ID, amount = 7, until = None\<rparr>]),
      storage_vesting = (\<lambda>a. None), storage_schedule = (\<lambda>a. None), bestNumber = 1\<rparr>
     [1] (Some [''first'', ''second'', ''third'']) =
   ([QueryMulti [(VestingVesting, [1]), (ModuleLocks ''second'', [1])]],
    (None, [Some [], Some [\<lparr>id' = VESTING_ID, amount = 7, until = None\<rparr>], Some []]))"
  using queryCurrent_one_list_per_instance
    [of "\<lparr>derive_customLocks = (\<lambda>m. False), query_locks = (\<lambda>m. m = ''second''),
          query_vesting_vesting = True, query_system_account = True,
          query_balances_account = False,
          getModuleInstances = Some [''first'', ''second'', ''third'']\<rparr>"
        "\<lparr>storage_locks = (\<lambda>q a. [\<lparr>id' = VESTING_ID, amount = 7, until = None\<rparr>]),
          storage_vesting = (\<lambda>a. None), storage_schedule = (\<lambda>a. None), bestNumber = 1\<rparr>"
        "[1]" "Some [''first'', ''second'', ''third'']"]
  by (simp add: queryCurrent_def Let_def map_filter_def js_index_def)

text \<open>
  Claim C9, as amended. For every account whose \<open>accountId\<close> is empty, the derivation
  starts no request at all, hence no lock or vesting query, and gives a successful
  result with no locks, no additional views, the locked balances zero and every vesting
  field zero or false. The raw balance components are those the account feed gave, and
  \<open>availableBalance\<close> is the free balance bounded below by zero: the result is all zero
  when the feed's components are.
\<close>

theorem all_unknown_account:
  assumes "isEmpty (DeriveBalancesAccount.accountId account)"
  shows "all api c account =
     ([], Inr \<lparr>data = Some \<lparr>freeBalance = freeBalance account,
                             reservedBalance = reservedBalance account\<rparr>,
               availableBalance = max 0 (freeBalance account),
               lockedBalance = 0, lockedBreakdown = [], vestingLocked = 0,
               accountId = DeriveBalancesAccount.accountId account,
               accountNonce = DeriveBalancesAccount.accountNonce account,
               additional = [],
               isVesting = False, vestedBalance = 0, vestedClaimable = 0,
               vestingEndBlock = 0, vestingPerBlock = 0, vestingTotal = 0\<rparr>)"
  using assms
  by (simp add: all_def Let_def calcShared_def calcLocked_def createType_Balance_def
      createType_BlockNumber_def js_index_def bnMax_def enumerate_eq_zip
      DeriveBalancesAccountData.truncate_def max.commute)

text \<open>
  The unknown account as the account feed reports it, all zero, on a chain that does
  hold a lock and a schedule under that key: no request, and a result of zeros.
\<close>

theorem all_unknown_account_witness:
  "isEmpty (replicate 32 0) \<and>
   all \<lparr>derive_customLocks = (\<lambda>m. False), query_locks = (\<lambda>m. True),
        query_vesting_vesting = True, query_system_account = True,
        query_balances_account = True, getModuleInstances = None\<rparr>
       \<lparr>storage_locks = (\<lambda>q a. [\<lparr>id' = VESTING_ID, amount = 7, until = None\<rparr>]),
        storage_vesting = (\<lambda>a. Some \<lparr>locked = 7, perBlock = 1, startingBlock = 0\<rparr>),
        storage_schedule = (\<lambda>a. None), bestNumber = 3\<rparr>
       \<lparr>freeBalance = 0, reservedBalance = 0,
        DeriveBalancesAccount.accountId = replicate 32 0,
        DeriveBalancesAccount.accountNonce = 0, DeriveBalancesAccount.additional = []\<rparr> =
     ([], Inr \<lparr>data = Some \<lparr>freeBalance = 0, reservedBalance = 0\<rparr>,
               availableBalance = 0, lockedBalance = 0, lockedBreakdown = [],
               vestingLocked = 0, accountId = replicate 32 0, accountNonce = 0,
               additional = [], isVesting = False, vestedBalance = 0, vestedClaimable = 0,
               vestingEndBlock = 0, vestingPerBlock = 0, vestingTotal = 0\<rparr>)"
proof -
  have e: "isEmpty (replicate 32 (0 :: 8 word))"
    by (simp add: isEmpty_def list_all_iff)
  let ?acc = "\<lparr>freeBalance = 0, reservedBalance = 0,
        DeriveBalancesAccount.accountId = replicate 32 0,
        DeriveBalancesAccount.accountNonce = 0, DeriveBalancesAccount.additional = []\<rparr>"
  have e': "isEmpty (DeriveBalancesAccount.accountId ?acc)"
    using e by simp
  show ?thesis
    using e all_unknown_account [OF e'] by simp
qed

text \<open>
  Claim C9 as first stated fails: the derivation does not zero the balances itself. For
  an account with an empty \<open>accountId\<close> for which the feed reports a free balance of 25,
  the result carries that free balance and an \<open>availableBalance\<close> of 25.
\<close>

theorem all_unknown_account_keeps_feed_balances:
  "all \<lparr>derive_customLocks = (\<lambda>m. False), query_locks = (\<lambda>m. True),
        query_vesting_vesting = True, query_system_account = True,
        query_balances_account = True, getModuleInstances = None\<rparr>
       \<lparr>storage_locks = (\<lambda>q a. []), storage_vesting = (\<lambda>a. None),
        storage_schedule = (\<lambda>a. None), bestNumber = 3\<rparr>
       \<lparr>freeBalance = 25, reservedBalance = 0,
        DeriveBalancesAccount.accountId = replicate 32 0,
        DeriveBalancesAccount.accountNonce = 0, DeriveBalancesAccount.additional = []\<rparr> =
     ([], Inr \<lparr>data = Some \<lparr>freeBalance = 25, reservedBalance = 0\<rparr>,
               availableBalance = 25, lockedBalance = 0, lockedBreakdown = [],
               vestingLocked = 0, accountId = replicate 32 0, accountNonce = 0,
               additional = [], isVesting = False, vestedBalance = 0, vestedClaimable = 0,
               vestingEndBlock = 0, vestingPerBlock = 0, vestingTotal = 0\<rparr>)"
  by (simp add: all_def isEmpty_def list_all_iff Let_def calcShared_def calcLocked_def
      createType_Balance_def createType_BlockNumber_def js_index_def bnMax_def
      enumerate_eq_zip DeriveBalancesAccountData.truncate_def)

end
